theory Spec2Isabelle
  imports Main "HOL-Library.Multiset" "HOL-Library.AList"
begin

section \<open>Values, objects and the reactive state\<close>

text \<open>
  The observer core of \<^verbatim>\<open>src/core/observer\<close> (\<^verbatim>\<open>index.js\<close>, \<^verbatim>\<open>dep.js\<close>,
  \<^verbatim>\<open>array.js\<close>) works on a JavaScript heap. Values are primitives or references
  to heap objects. Numbers are integers plus the one not-a-number value, which is the only
  value that is not strictly equal to itself.
\<close>

type_synonym addr = nat

datatype jsval = Undefined | Null | Bool bool | Num int | NaN | Str string | Ref addr

text \<open>
  A property key is either a valid array index (what \<^verbatim>\<open>isValidArrayIndex\<close> accepts) or
  any other name.
\<close>

datatype key = Idx nat | Name string

text \<open>What \<^verbatim>\<open>Array.isArray\<close>, \<^verbatim>\<open>isPlainObject\<close> and \<^verbatim>\<open>instanceof VNode\<close> see.\<close>

datatype klass = PlainObject | Array | VNode | Other

text \<open>
  The closure of one \<^verbatim>\<open>defineReactive\<close> call: its \<^verbatim>\<open>dep\<close>, the captured \<^verbatim>\<open>val\<close>,
  the pre-existing \<^verbatim>\<open>getter\<close> and \<^verbatim>\<open>setter\<close> (user functions, named by a number), the
  cached \<^verbatim>\<open>childOb\<close> (the identity of an Observer when it is one; \<^verbatim>\<open>false\<close> and
  \<^verbatim>\<open>undefined\<close> are both \<open>None\<close>, the code only tests it for truth) and the
  \<^verbatim>\<open>customSetter\<close> and \<^verbatim>\<open>shallow\<close> arguments.
\<close>

record slot =
  sdep :: nat
  sval :: jsval
  sgetter :: "nat option"
  ssetter :: "nat option"
  childOb :: "nat option"
  customSetter :: "nat option"
  shallow :: bool

datatype pkind =
    Data jsval
  | Accessor "nat option" "nat option"
  | Reactive slot

record property =
  kind :: pkind
  enumerable :: bool
  configurable :: bool

text \<open>A property seen through the prototype chain: a value, or a user getter and setter.\<close>

datatype inherited_property = IData jsval | IAccessor "nat option" "nat option"

text \<open>
  An Observer: its identity, its own \<^verbatim>\<open>dep\<close> and \<^verbatim>\<open>vmCount\<close>. Its \<^verbatim>\<open>value\<close> field is
  the object that carries it as \<^verbatim>\<open>__ob__\<close>: the constructor sets both at once and nothing
  reassigns them, so the Observer is stored in its object.
\<close>

record observer =
  oid :: nat
  odep :: nat
  vmCount :: nat

text \<open>
  A heap object. \<open>ob\<close> is the own property \<^verbatim>\<open>__ob__\<close> when it holds an Observer;
  \<open>elems\<close> are the elements of an array (a hole reads as \<open>Undefined\<close>);
  \<open>augmented\<close> says that the seven intercepted methods are in force on the array
  (by \<^verbatim>\<open>protoAugment\<close> or \<^verbatim>\<open>copyAugment\<close>); \<open>props\<close> are the other own properties,
  the first binding of a key counting; \<open>inherited\<close> are the properties seen through the
  prototype chain below \<^verbatim>\<open>Object.prototype\<close>.
\<close>

record obj =
  klass :: klass
  extensible :: bool
  isVue :: bool
  ob :: "observer option"
  elems :: "jsval list"
  augmented :: bool
  props :: "(key \<times> property) list"
  inherited :: "(key \<times> inherited_property) list"

text \<open>A \<^verbatim>\<open>Dep\<close>: \<^verbatim>\<open>id\<close> and \<^verbatim>\<open>subs\<close>; a subscriber is named by a number.\<close>

record dep =
  did :: nat
  subs :: "nat list"

text \<open>\<^verbatim>\<open>Dep.target\<close> is a watcher, \<^verbatim>\<open>null\<close> or \<^verbatim>\<open>undefined\<close>.\<close>

datatype target = TNull | TUndefined | TWatcher nat

record state =
  heap :: "obj list"
  deps :: "dep list"
  uid :: nat
  nextOb :: nat
  shouldObserve :: bool
  dtarget :: target
  targetStack :: "target list"

text \<open>
  What the core is configured with and what it calls but does not define:
  \<^verbatim>\<open>process.env.NODE_ENV\<close>, \<^verbatim>\<open>config.async\<close>, \<^verbatim>\<open>isServerRendering()\<close>, \<^verbatim>\<open>hasProto\<close>,
  the \<^verbatim>\<open>id\<close> and the \<^verbatim>\<open>update()\<close> of each subscriber, the user's getters (reads of the
  state) and setters, and the engine's ordering for \<^verbatim>\<open>Array.prototype.sort\<close>, which
  depends on the caller's comparator. Every one of these callbacks is taken to return
  normally; what a subscriber's \<^verbatim>\<open>update()\<close> or a user's setter does to the state is
  left open.
\<close>

record env =
  production :: bool
  async :: bool
  serverRendering :: bool
  hasProto :: bool
  watcher_id :: "nat \<Rightarrow> int"
  update :: "nat \<Rightarrow> state \<Rightarrow> state"
  getter_call :: "nat \<Rightarrow> addr \<Rightarrow> state \<Rightarrow> jsval"
  setter_call :: "nat \<Rightarrow> addr \<Rightarrow> jsval \<Rightarrow> state \<Rightarrow> state"
  native_sort :: "jsval list \<Rightarrow> jsval list \<Rightarrow> jsval list"

text \<open>
  What a call does that its caller can see besides the state: the diagnostics of
  \<^verbatim>\<open>warn\<close>, every \<^verbatim>\<open>notify()\<close> with the index of its Dep, every \<^verbatim>\<open>update()\<close> of a
  subscriber, every call of a \<^verbatim>\<open>customSetter\<close>.
\<close>

datatype event = Warn string | Notify nat | Update nat | CustomSetter nat

section \<open>Dep\<close>

definition dep_subs :: "state \<Rightarrow> nat \<Rightarrow> nat list" where
  "dep_subs s d = (if d < length (deps s) then subs (deps s ! d) else [])"

definition set_subs :: "nat \<Rightarrow> nat list \<Rightarrow> state \<Rightarrow> state" where
  "set_subs d ws s =
     (if d < length (deps s) then s\<lparr>deps := (deps s)[d := (deps s ! d)\<lparr>subs := ws\<rparr>]\<rparr> else s)"

text \<open>\<^verbatim>\<open>new Dep()\<close>: \<^verbatim>\<open>this.id = uid++; this.subs = []\<close>. Returns the index of the new Dep.\<close>

definition newDep :: "state \<Rightarrow> nat \<times> state" where
  "newDep s =
     (length (deps s), s\<lparr>deps := deps s @ [\<lparr>did = uid s, subs = []\<rparr>], uid := uid s + 1\<rparr>)"

definition addSub :: "nat \<Rightarrow> nat \<Rightarrow> state \<Rightarrow> state" where
  "addSub d w s = set_subs d (dep_subs s d @ [w]) s"

text \<open>\<^verbatim>\<open>remove(arr, item)\<close> of the utilities deletes the first match.\<close>

definition removeSub :: "nat \<Rightarrow> nat \<Rightarrow> state \<Rightarrow> state" where
  "removeSub d w s = set_subs d (remove1 w (dep_subs s d)) s"

text \<open>The loop of \<^verbatim>\<open>notify\<close> over the local array \<^verbatim>\<open>subs\<close>.\<close>

fun fire :: "env \<Rightarrow> nat list \<Rightarrow> state \<Rightarrow> event list \<times> state" where
  "fire env [] s = ([], s)"
| "fire env (w # ws) s =
     (let s' = update env w s;
          (tr, s'') = fire env ws s'
      in (Update w # tr, s''))"

definition notify :: "env \<Rightarrow> nat \<Rightarrow> state \<Rightarrow> event list \<times> state" where
  "notify env d s =
     (let subs0 = dep_subs s d;
          subs1 = (if \<not> production env \<and> \<not> async env
                   then sort_key (watcher_id env) subs0 else subs0);
          (tr, s') = fire env subs1 s
      in (Notify d # tr, s'))"

text \<open>The subscribers whose \<^verbatim>\<open>update()\<close> a trace records, in call order.\<close>

fun updates_of :: "event list \<Rightarrow> nat list" where
  "updates_of [] = []"
| "updates_of (Update w # tr) = w # updates_of tr"
| "updates_of (_ # tr) = updates_of tr"

section \<open>Objects and their properties\<close>

definition obj_at :: "state \<Rightarrow> addr \<Rightarrow> obj option" where
  "obj_at s a = (if a < length (heap s) then Some (heap s ! a) else None)"

definition upd_obj :: "addr \<Rightarrow> (obj \<Rightarrow> obj) \<Rightarrow> state \<Rightarrow> state" where
  "upd_obj a f s =
     (if a < length (heap s) then s\<lparr>heap := (heap s)[a := f (heap s ! a)]\<rparr> else s)"

text \<open>\<^verbatim>\<open>Object.getOwnPropertyDescriptor(obj, key)\<close>, for a key other than \<^verbatim>\<open>__ob__\<close>.\<close>

definition getOwnPropertyDescriptor :: "obj \<Rightarrow> key \<Rightarrow> property option" where
  "getOwnPropertyDescriptor o' k = map_of (props o') k"

text \<open>\<^verbatim>\<open>Object.keys(obj)\<close>: the own enumerable keys, each once.\<close>

definition keys_of :: "obj \<Rightarrow> key list" where
  "keys_of o' =
     filter (\<lambda>k. case map_of (props o') k of Some p \<Rightarrow> enumerable p | None \<Rightarrow> False)
       (remdups (map fst (props o')))"

text \<open>
  Modelled from the spec: \<^verbatim>\<open>isUndef\<close>, \<^verbatim>\<open>isPrimitive\<close>, \<^verbatim>\<open>isValidArrayIndex\<close> and
  \<^verbatim>\<open>hasOwn\<close> of \<^verbatim>\<open>src/core/util\<close>, which is not among the sources: a target that is
  undefined or null; a target that is a string, number or boolean; a key that is a valid
  non-negative integer index; a key that is an own property.
\<close>

definition isUndef :: "jsval \<Rightarrow> bool" where
  "isUndef v = (v = Undefined \<or> v = Null)"

fun isPrimitive :: "jsval \<Rightarrow> bool" where
  "isPrimitive (Str _) = True"
| "isPrimitive (Num _) = True"
| "isPrimitive NaN = True"
| "isPrimitive (Bool _) = True"
| "isPrimitive _ = False"

fun isValidArrayIndex :: "key \<Rightarrow> bool" where
  "isValidArrayIndex (Idx _) = True"
| "isValidArrayIndex (Name _) = False"

text \<open>
  \<^verbatim>\<open>newVal === value\<close>: the same primitive or the same object, and not-a-number is not
  equal to itself.
\<close>

definition strict_eq :: "jsval \<Rightarrow> jsval \<Rightarrow> bool" where
  "strict_eq x y = (x = y \<and> x \<noteq> NaN)"

section \<open>observe, the Observer constructor and defineReactive\<close>

text \<open>
  \<^verbatim>\<open>observe\<close>, \<^verbatim>\<open>new Observer\<close>, \<^verbatim>\<open>observeArray\<close>, \<^verbatim>\<open>walk\<close> and \<^verbatim>\<open>defineReactive\<close> call
  each other through the object graph. The first argument after the environment bounds
  the depth of nested \<^verbatim>\<open>observe\<close> calls; \<open>None\<close> says that the call has no result in
  this model: the bound was reached, or \<^verbatim>\<open>defineReactive\<close> met a property that is already
  reactive, or one it cannot define because the object is not extensible.

  \<^verbatim>\<open>observe\<close> returns the identity of the Observer, or \<open>None\<close> for \<^verbatim>\<open>undefined\<close>.
\<close>

definition eligible :: "env \<Rightarrow> state \<Rightarrow> obj \<Rightarrow> bool" where
  "eligible env s o' =
     (shouldObserve s \<and> \<not> serverRendering env \<and>
      (klass o' = Array \<or> klass o' = PlainObject) \<and> extensible o' \<and> \<not> isVue o')"

text \<open>\<^verbatim>\<open>def(value, "__ob__", this)\<close> of the constructor.\<close>

definition def_ob :: "addr \<Rightarrow> observer \<Rightarrow> state \<Rightarrow> state" where
  "def_ob a b s = upd_obj a (\<lambda>o'. o'\<lparr>ob := Some b\<rparr>) s"

text \<open>\<^verbatim>\<open>protoAugment\<close> or \<^verbatim>\<open>copyAugment\<close>: either puts the seven mutators in force.\<close>

definition augment :: "env \<Rightarrow> addr \<Rightarrow> state \<Rightarrow> state" where
  "augment env a s = upd_obj a (\<lambda>o'. o'\<lparr>augmented := True\<rparr>) s"

text \<open>\<^verbatim>\<open>Object.defineProperty(obj, key, {enumerable: true, configurable: true, get, set})\<close>.\<close>

definition define_accessor :: "addr \<Rightarrow> key \<Rightarrow> slot \<Rightarrow> state \<Rightarrow> state" where
  "define_accessor a k sl s =
     upd_obj a (\<lambda>o'. o'\<lparr>props :=
        AList.update k \<lparr>kind = Reactive sl, enumerable = True, configurable = True\<rparr> (props o')\<rparr>) s"

text \<open>\<^verbatim>\<open>obj[key]\<close> where \<^verbatim>\<open>key\<close> names no own property: the prototype chain.\<close>

definition get_inherited :: "env \<Rightarrow> state \<Rightarrow> addr \<Rightarrow> obj \<Rightarrow> key \<Rightarrow> jsval" where
  "get_inherited env s a o' k =
     (case map_of (inherited o') k of
        Some (IData v) \<Rightarrow> v
      | Some (IAccessor (Some g) _) \<Rightarrow> getter_call env g a s
      | _ \<Rightarrow> Undefined)"

type_synonym observe_fn = "jsval \<Rightarrow> bool \<Rightarrow> state \<Rightarrow> (nat option \<times> state) option"

text \<open>
  \<^verbatim>\<open>defineReactive(obj, key, val, customSetter, shallow)\<close>; \<open>val = None\<close> is the call
  with two arguments. \<open>obs\<close> is the \<^verbatim>\<open>observe\<close> it calls.
\<close>

definition defineReactive_by ::
  "observe_fn \<Rightarrow> env \<Rightarrow> addr \<Rightarrow> key \<Rightarrow> jsval option \<Rightarrow> nat option \<Rightarrow> bool \<Rightarrow> state
     \<Rightarrow> state option" where
  "defineReactive_by obs env a k val custom shal s =
     (let (d, s1) = newDep s
      in case obj_at s1 a of
           None \<Rightarrow> None
         | Some o' \<Rightarrow>
             (let property = getOwnPropertyDescriptor o' k
              in if (case property of Some p \<Rightarrow> \<not> configurable p | None \<Rightarrow> False) then Some s1
                 else
                   (case (case property of
                            None \<Rightarrow> if extensible o'
                                     then Some (None, None, get_inherited env s1 a o' k) else None
                          | Some p \<Rightarrow>
                              (case kind p of
                                 Data v \<Rightarrow> Some (None, None, v)
                               | Accessor g f \<Rightarrow>
                                   Some (g, f, case g of Some g' \<Rightarrow> getter_call env g' a s1
                                               | None \<Rightarrow> Undefined)
                               | Reactive _ \<Rightarrow> None)) of
                      None \<Rightarrow> None
                    | Some (getter, setter, read) \<Rightarrow>
                        (let v = (case val of
                                    Some v' \<Rightarrow> v'
                                  | None \<Rightarrow> if getter = None \<or> setter \<noteq> None
                                            then read else Undefined)
                         in case (if shal then Some (None, s1) else obs v False s1) of
                              None \<Rightarrow> None
                            | Some (cob, s2) \<Rightarrow>
                                Some (define_accessor a k
                                  \<lparr>sdep = d, sval = v, sgetter = getter, ssetter = setter,
                                   childOb = cob, customSetter = custom,
                                   shallow = shal\<rparr> s2)))))"

text \<open>\<^verbatim>\<open>walk(obj)\<close>: \<^verbatim>\<open>defineReactive(obj, keys[i])\<close> over \<^verbatim>\<open>Object.keys(obj)\<close>.\<close>

fun walk_by :: "observe_fn \<Rightarrow> env \<Rightarrow> addr \<Rightarrow> key list \<Rightarrow> state \<Rightarrow> state option" where
  "walk_by obs env a [] s = Some s"
| "walk_by obs env a (k # ks) s =
     (case defineReactive_by obs env a k None None False s of
        None \<Rightarrow> None
      | Some s' \<Rightarrow> walk_by obs env a ks s')"

text \<open>\<^verbatim>\<open>observeArray(items)\<close>: \<^verbatim>\<open>observe(items[i])\<close> for each item.\<close>

fun observeArray_by :: "observe_fn \<Rightarrow> jsval list \<Rightarrow> state \<Rightarrow> state option" where
  "observeArray_by obs [] s = Some s"
| "observeArray_by obs (v # vs) s =
     (case obs v False s of
        None \<Rightarrow> None
      | Some (r, s') \<Rightarrow> observeArray_by obs vs s')"

text \<open>
  \<^verbatim>\<open>new Observer(value)\<close>: a new Dep, \<^verbatim>\<open>vmCount = 0\<close>, the marker, then the elements of an
  array or the keys of an object. Nothing that runs in the loop over an array changes the
  array, so the loop is over the elements it had at the start.
\<close>

definition newObserver_by :: "observe_fn \<Rightarrow> env \<Rightarrow> addr \<Rightarrow> state \<Rightarrow> (nat \<times> state) option" where
  "newObserver_by obs env a s =
     (let (d, s1) = newDep s;
          i = nextOb s1;
          s2 = def_ob a \<lparr>oid = i, odep = d, vmCount = 0\<rparr> (s1\<lparr>nextOb := i + 1\<rparr>)
      in case obj_at s2 a of
           None \<Rightarrow> None
         | Some o' \<Rightarrow>
             (case (if klass o' = Array
                    then observeArray_by obs (elems o') (augment env a s2)
                    else walk_by obs env a (keys_of o') s2) of
                None \<Rightarrow> None
              | Some s' \<Rightarrow> Some (i, s')))"

text \<open>\<^verbatim>\<open>ob.vmCount++\<close> on the Observer of the object at \<open>a\<close>.\<close>

definition incr_vmCount :: "addr \<Rightarrow> state \<Rightarrow> state" where
  "incr_vmCount a s =
     upd_obj a (\<lambda>o'. o'\<lparr>ob := map_option (\<lambda>b. b\<lparr>vmCount := vmCount b + 1\<rparr>) (ob o')\<rparr>) s"

primrec observe :: "env \<Rightarrow> nat \<Rightarrow> observe_fn" where
  "observe env 0 = (\<lambda>v asRootData s. None)"
| "observe env (Suc n) = (\<lambda>v asRootData s.
     case v of
       Ref a \<Rightarrow>
         (case obj_at s a of
            None \<Rightarrow> Some (None, s)
          | Some o' \<Rightarrow>
              if klass o' = VNode then Some (None, s)
              else
                (case (case ob o' of
                         Some b \<Rightarrow> Some (Some (oid b), s)
                       | None \<Rightarrow>
                           if eligible env s o'
                           then (case newObserver_by (observe env n) env a s of
                                   None \<Rightarrow> None
                                 | Some (i, s') \<Rightarrow> Some (Some i, s'))
                           else Some (None, s)) of
                   None \<Rightarrow> None
                 | Some (r, s') \<Rightarrow>
                     Some (r, if asRootData \<and> r \<noteq> None then incr_vmCount a s' else s')))
     | _ \<Rightarrow> Some (None, s))"

definition observeArray :: "env \<Rightarrow> nat \<Rightarrow> jsval list \<Rightarrow> state \<Rightarrow> state option" where
  "observeArray env n = observeArray_by (observe env n)"

definition defineReactive ::
  "env \<Rightarrow> nat \<Rightarrow> addr \<Rightarrow> key \<Rightarrow> jsval option \<Rightarrow> nat option \<Rightarrow> bool \<Rightarrow> state \<Rightarrow> state option" where
  "defineReactive env n = defineReactive_by (observe env n) env"

text \<open>\<^verbatim>\<open>toggleObserving(value)\<close>.\<close>

definition toggleObserving :: "bool \<Rightarrow> state \<Rightarrow> state" where
  "toggleObserving b s = s\<lparr>shouldObserve := b\<rparr>"

section \<open>What observation leaves alone\<close>

text \<open>An object that carries an Observer.\<close>

definition marked :: "state \<Rightarrow> addr \<Rightarrow> bool" where
  "marked s a = (a < length (heap s) \<and> ob (heap s ! a) \<noteq> None)"

text \<open>
  From \<open>s\<close> to \<open>s'\<close> no object is created, every object that carried an Observer
  keeps it and its class, and outside \<open>A\<close> such an object is unchanged.
\<close>

definition frame_ex :: "addr set \<Rightarrow> state \<Rightarrow> state \<Rightarrow> bool" where
  "frame_ex A s s' =
     (length (heap s') = length (heap s) \<and>
      (\<forall>b. marked s b \<longrightarrow>
            ob (heap s' ! b) = ob (heap s ! b) \<and> klass (heap s' ! b) = klass (heap s ! b) \<and>
            (b \<notin> A \<longrightarrow> heap s' ! b = heap s ! b)))"

definition obs_frame :: "observe_fn \<Rightarrow> bool" where
  "obs_frame obs = (\<forall>v s x s'. obs v False s = Some (x, s') \<longrightarrow> frame_ex {} s s')"

text \<open>The state in which the constructor has set the marker on the object at \<open>a\<close>.\<close>

definition marked_state :: "addr \<Rightarrow> state \<Rightarrow> state" where
  "marked_state a s =
     def_ob a \<lparr>oid = nextOb s, odep = length (deps s), vmCount = 0\<rparr>
       ((snd (newDep s))\<lparr>nextOb := nextOb s + 1\<rparr>)"

text \<open>The identity of the Observer that \<^verbatim>\<open>observe\<close> finds on the object at \<open>a\<close>.\<close>

definition ob_id :: "state \<Rightarrow> addr \<Rightarrow> nat option" where
  "ob_id s a =
     (case obj_at s a of
        None \<Rightarrow> None
      | Some o' \<Rightarrow> if klass o' = VNode then None else map_option oid (ob o'))"











section \<open>The reactive setter\<close>

text \<open>The closure of the reactive accessor installed at \<open>key\<close> of the object at \<open>a\<close>.\<close>

definition slot_at :: "state \<Rightarrow> addr \<Rightarrow> key \<Rightarrow> slot option" where
  "slot_at s a k =
     (case obj_at s a of
        None \<Rightarrow> None
      | Some o' \<Rightarrow>
          (case map_of (props o') k of
             None \<Rightarrow> None
           | Some p \<Rightarrow> (case kind p of Reactive sl \<Rightarrow> Some sl | _ \<Rightarrow> None)))"

definition upd_slot :: "addr \<Rightarrow> key \<Rightarrow> (slot \<Rightarrow> slot) \<Rightarrow> state \<Rightarrow> state" where
  "upd_slot a k f s =
     upd_obj a (\<lambda>o'. o'\<lparr>props :=
        AList.map_entry k
          (\<lambda>p. case kind p of Reactive sl \<Rightarrow> p\<lparr>kind := Reactive (f sl)\<rparr> | _ \<Rightarrow> p) (props o')\<rparr>) s"

text \<open>
  \<^verbatim>\<open>reactiveSetter(newVal)\<close> of that accessor. A \<^verbatim>\<open>customSetter\<close> takes no argument and is
  recorded as an event. \<open>None\<close>: there is no reactive accessor there, or \<^verbatim>\<open>observe\<close>
  has no result.
\<close>

definition reactiveSetter ::
  "env \<Rightarrow> nat \<Rightarrow> addr \<Rightarrow> key \<Rightarrow> jsval \<Rightarrow> state \<Rightarrow> (event list \<times> state) option" where
  "reactiveSetter env n a k newVal s =
     (case slot_at s a k of
        None \<Rightarrow> None
      | Some sl \<Rightarrow>
          (let value = (case sgetter sl of Some g \<Rightarrow> getter_call env g a s | None \<Rightarrow> sval sl)
           in if strict_eq newVal value \<or> (\<not> strict_eq newVal newVal \<and> \<not> strict_eq value value)
              then Some ([], s)
              else
                (let tr1 = (case customSetter sl of
                              Some c \<Rightarrow> if \<not> production env then [CustomSetter c] else []
                            | None \<Rightarrow> [])
                 in if sgetter sl \<noteq> None \<and> ssetter sl = None then Some (tr1, s)
                    else
                      (let s1 = (case ssetter sl of
                                   Some f \<Rightarrow> setter_call env f a newVal s
                                 | None \<Rightarrow> upd_slot a k (\<lambda>c. c\<lparr>sval := newVal\<rparr>) s)
                       in case (if shallow sl then Some (None, s1)
                                else observe env n newVal False s1) of
                            None \<Rightarrow> None
                          | Some (cob, s2) \<Rightarrow>
                              (let s3 = upd_slot a k (\<lambda>c. c\<lparr>childOb := cob\<rparr>) s2;
                                   (tr2, s4) = notify env (sdep sl) s3
                               in Some (tr1 @ tr2, s4))))))"

section \<open>The array methods and their interceptor\<close>

datatype array_method = Push | Pop | Shift | Unshift | Splice | Sort | Reverse

datatype error = TypeError | RangeError

datatype outcome = Returned jsval | Thrown error

text \<open>
  \<^verbatim>\<open>ToIntegerOrInfinity\<close> of an argument of \<^verbatim>\<open>splice\<close>; a string or an object as a number
  is not modelled.
\<close>

fun toInteger :: "jsval \<Rightarrow> int option" where
  "toInteger (Num i) = Some i"
| "toInteger (Bool b) = Some (if b then 1 else 0)"
| "toInteger Undefined = Some 0"
| "toInteger Null = Some 0"
| "toInteger NaN = Some 0"
| "toInteger (Str _) = None"
| "toInteger (Ref _) = None"

definition relative_start :: "nat \<Rightarrow> int \<Rightarrow> nat" where
  "relative_start len i = (if i < 0 then nat (max (int len + i) 0) else min (nat i) len)"

definition new_array :: "jsval list \<Rightarrow> obj" where
  "new_array xs = \<lparr>klass = Array, extensible = True, isVue = False, ob = None, elems = xs,
     augmented = False, props = [], inherited = []\<rparr>"

text \<open>
  \<^verbatim>\<open>Array.prototype.splice\<close> on the elements: the new elements and the removed ones.
\<close>

definition splice_elems ::
  "jsval list \<Rightarrow> jsval list \<Rightarrow> (jsval list \<times> jsval list) option" where
  "splice_elems args xs =
     (case args of
        [] \<Rightarrow> Some (xs, [])
      | st # rest \<Rightarrow>
          (case toInteger st of
             None \<Rightarrow> None
           | Some i \<Rightarrow>
               (let start = relative_start (length xs) i
                in case rest of
                     [] \<Rightarrow> Some (take start xs, drop start xs)
                   | dc # items \<Rightarrow>
                       (case toInteger dc of
                          None \<Rightarrow> None
                        | Some c \<Rightarrow>
                            (let n = min (nat (max c 0)) (length xs - start)
                             in Some (take start xs @ items @ drop (start + n) xs,
                                      take n (drop start xs)))))))"

text \<open>
  The native method \<^verbatim>\<open>arrayProto[method]\<close> applied to the array at \<open>a\<close>: its return
  value and the state. \<^verbatim>\<open>splice\<close> returns a new array of the removed elements.
\<close>

definition native ::
  "env \<Rightarrow> array_method \<Rightarrow> jsval list \<Rightarrow> addr \<Rightarrow> state \<Rightarrow> (jsval \<times> state) option" where
  "native env m args a s =
     (case obj_at s a of
        None \<Rightarrow> None
      | Some o' \<Rightarrow>
          if klass o' \<noteq> Array then None
          else
            (let xs = elems o'; put = (\<lambda>ys. upd_obj a (\<lambda>o'. o'\<lparr>elems := ys\<rparr>) s)
             in case m of
                  Push \<Rightarrow> Some (Num (int (length xs + length args)), put (xs @ args))
                | Unshift \<Rightarrow> Some (Num (int (length args + length xs)), put (args @ xs))
                | Pop \<Rightarrow> (if xs = [] then Some (Undefined, s)
                          else Some (last xs, put (butlast xs)))
                | Shift \<Rightarrow> (if xs = [] then Some (Undefined, s)
                            else Some (hd xs, put (tl xs)))
                | Reverse \<Rightarrow> Some (Ref a, put (rev xs))
                | Sort \<Rightarrow> Some (Ref a, put (native_sort env args xs))
                | Splice \<Rightarrow>
                    (case splice_elems args xs of
                       None \<Rightarrow> None
                     | Some (ys, removed) \<Rightarrow>
                         (let s1 = put ys
                          in Some (Ref (length (heap s1)),
                                   s1\<lparr>heap := heap s1 @ [new_array removed]\<rparr>)))))"

text \<open>
  \<^verbatim>\<open>inserted\<close> of the mutator: the arguments of \<^verbatim>\<open>push\<close> and \<^verbatim>\<open>unshift\<close>,
  \<^verbatim>\<open>args.slice(2)\<close> of \<^verbatim>\<open>splice\<close>, otherwise undefined.
\<close>

fun inserted :: "array_method \<Rightarrow> jsval list \<Rightarrow> jsval list option" where
  "inserted Push args = Some args"
| "inserted Unshift args = Some args"
| "inserted Splice args = Some (drop 2 args)"
| "inserted _ args = None"

text \<open>
  The \<^verbatim>\<open>mutator\<close> installed for \<open>m\<close>, called on the array at \<open>a\<close>. Without an
  Observer in \<^verbatim>\<open>this.__ob__\<close>, \<^verbatim>\<open>ob.observeArray\<close> or \<^verbatim>\<open>ob.dep\<close> is a TypeError.
\<close>

definition mutator ::
  "env \<Rightarrow> nat \<Rightarrow> array_method \<Rightarrow> jsval list \<Rightarrow> addr \<Rightarrow> state
     \<Rightarrow> (outcome \<times> event list \<times> state) option" where
  "mutator env n m args a s =
     (case native env m args a s of
        None \<Rightarrow> None
      | Some (result, s1) \<Rightarrow>
          (case obj_at s1 a of
             None \<Rightarrow> None
           | Some o' \<Rightarrow>
               (case ob o' of
                  None \<Rightarrow> Some (Thrown TypeError, [], s1)
                | Some b \<Rightarrow>
                    (case (case inserted m args of
                             Some xs \<Rightarrow> observeArray env n xs s1
                           | None \<Rightarrow> Some s1) of
                       None \<Rightarrow> None
                     | Some s2 \<Rightarrow>
                         (let (tr, s3) = notify env (odep b) s2
                          in Some (Returned result, tr, s3))))))"

text \<open>
  A method call \<^verbatim>\<open>target.splice(...)\<close> and the like: the mutator when the array is
  augmented, the native method otherwise.
\<close>

definition call_method ::
  "env \<Rightarrow> nat \<Rightarrow> array_method \<Rightarrow> jsval list \<Rightarrow> addr \<Rightarrow> state
     \<Rightarrow> (outcome \<times> event list \<times> state) option" where
  "call_method env n m args a s =
     (case obj_at s a of
        None \<Rightarrow> None
      | Some o' \<Rightarrow>
          if augmented o' then mutator env n m args a s
          else (case native env m args a s of
                  None \<Rightarrow> None
                | Some (result, s') \<Rightarrow> Some (Returned result, [], s')))"

section \<open>set and del\<close>

text \<open>
  The names that \<^verbatim>\<open>key in Object.prototype\<close> accepts: the members of the built-in
  \<^verbatim>\<open>Object.prototype\<close>.
\<close>

definition objectPrototypeKeys :: "string list" where
  "objectPrototypeKeys =
     [''constructor'', ''__defineGetter__'', ''__defineSetter__'', ''hasOwnProperty'',
      ''__lookupGetter__'', ''__lookupSetter__'', ''isPrototypeOf'', ''propertyIsEnumerable'',
      ''toString'', ''valueOf'', ''__proto__'', ''toLocaleString'']"

definition in_Object_prototype :: "key \<Rightarrow> bool" where
  "in_Object_prototype k = (case k of Name x \<Rightarrow> x \<in> set objectPrototypeKeys | Idx _ \<Rightarrow> False)"

text \<open>
  \<^verbatim>\<open>key in target\<close> for an object that is not an array: an own property, one of the
  prototype chain, or one of \<^verbatim>\<open>Object.prototype\<close> at the end of the chain.
\<close>

definition has_property :: "obj \<Rightarrow> key \<Rightarrow> bool" where
  "has_property o' k =
     (map_of (props o') k \<noteq> None \<or> map_of (inherited o') k \<noteq> None \<or> in_Object_prototype k)"

text \<open>\<^verbatim>\<open>hasOwn(target, key)\<close> on an object.\<close>

definition hasOwn :: "obj \<Rightarrow> key \<Rightarrow> bool" where
  "hasOwn o' k = (map_of (props o') k \<noteq> None)"

text \<open>
  \<^verbatim>\<open>hasOwn(target, key)\<close> on a primitive: a string has its indices and \<^verbatim>\<open>length\<close>, a
  number or a boolean has nothing.
\<close>

fun hasOwn_primitive :: "jsval \<Rightarrow> key \<Rightarrow> bool" where
  "hasOwn_primitive (Str x) (Idx i) = (i < length x)"
| "hasOwn_primitive (Str x) (Name y) = (y = ''length'')"
| "hasOwn_primitive _ _ = False"

text \<open>
  The keys this model does not follow: \<^verbatim>\<open>__ob__\<close> itself, which is kept apart from the
  other properties, and a key of an array that is not a valid index (\<^verbatim>\<open>length\<close>, the
  names of \<^verbatim>\<open>Array.prototype\<close>, other named properties).
\<close>

definition unmodelled_key :: "obj \<Rightarrow> key \<Rightarrow> bool" where
  "unmodelled_key o' k = (k = Name ''__ob__'' \<or> (klass o' = Array \<and> \<not> isValidArrayIndex k))"

text \<open>
  The assignment \<^verbatim>\<open>target[key] = val\<close> on an object that is not an array, in the strict
  mode of a module: an own data property is written, an own or inherited accessor has its
  setter called (the reactive setter for a reactive accessor) and is a TypeError without
  a setter, and a key that is not an own property becomes one when the object is
  extensible and is a TypeError otherwise. Data properties are writable.
\<close>

definition assign ::
  "env \<Rightarrow> nat \<Rightarrow> addr \<Rightarrow> key \<Rightarrow> jsval \<Rightarrow> state \<Rightarrow> (outcome \<times> event list \<times> state) option" where
  "assign env n a k v s =
     (case obj_at s a of
        None \<Rightarrow> None
      | Some o' \<Rightarrow>
          (let create =
                 (if extensible o'
                  then Some (Returned v, [],
                         upd_obj a (\<lambda>o'. o'\<lparr>props := props o' @
                           [(k, \<lparr>kind = Data v, enumerable = True, configurable = True\<rparr>)]\<rparr>) s)
                  else Some (Thrown TypeError, [], s))
           in case map_of (props o') k of
                Some p \<Rightarrow>
                  (case kind p of
                     Data _ \<Rightarrow>
                       Some (Returned v, [],
                         upd_obj a (\<lambda>o'. o'\<lparr>props :=
                           AList.map_entry k (\<lambda>p. p\<lparr>kind := Data v\<rparr>) (props o')\<rparr>) s)
                   | Accessor _ (Some f) \<Rightarrow> Some (Returned v, [], setter_call env f a v s)
                   | Accessor _ None \<Rightarrow> Some (Thrown TypeError, [], s)
                   | Reactive _ \<Rightarrow>
                       (case reactiveSetter env n a k v s of
                          None \<Rightarrow> None
                        | Some (tr, s') \<Rightarrow> Some (Returned v, tr, s')))
              | None \<Rightarrow>
                  (case map_of (inherited o') k of
                     Some (IAccessor _ (Some f)) \<Rightarrow> Some (Returned v, [], setter_call env f a v s)
                   | Some (IAccessor _ None) \<Rightarrow> Some (Thrown TypeError, [], s)
                   | Some (IData _) \<Rightarrow> create
                   | None \<Rightarrow> create)))"

text \<open>What follows a statement that may throw.\<close>

definition and_then ::
  "(outcome \<times> event list \<times> state) option \<Rightarrow>
   (event list \<Rightarrow> state \<Rightarrow> (outcome \<times> event list \<times> state) option) \<Rightarrow>
   (outcome \<times> event list \<times> state) option" where
  "and_then r f =
     (case r of
        None \<Rightarrow> None
      | Some (Thrown e, tr, s) \<Rightarrow> Some (Thrown e, tr, s)
      | Some (Returned _, tr, s) \<Rightarrow> f tr s)"

definition warn_set :: string where
  "warn_set = ''Cannot set reactive property on undefined, null, or primitive value''"

definition warn_add :: string where
  "warn_add = ''Avoid adding reactive properties to a Vue instance or its root $data at runtime - declare it upfront in the data option.''"

definition warn_delete :: string where
  "warn_delete = ''Cannot delete reactive property on undefined, null, or primitive value''"

definition warn_remove :: string where
  "warn_remove = ''Avoid deleting properties on a Vue instance or its root $data - just set it to null.''"

text \<open>\<^verbatim>\<open>set(target, key, val)\<close>. On a target that is not an object, \<^verbatim>\<open>key in target\<close> is a TypeError.\<close>

definition set_reactive ::
  "env \<Rightarrow> nat \<Rightarrow> jsval \<Rightarrow> key \<Rightarrow> jsval \<Rightarrow> state \<Rightarrow> (outcome \<times> event list \<times> state) option" where
  "set_reactive env n target k val s =
     (let tr0 = (if \<not> production env \<and> (isUndef target \<or> isPrimitive target)
                 then [Warn warn_set] else [])
      in case target of
           Ref a \<Rightarrow>
             (case obj_at s a of
                None \<Rightarrow> None
              | Some o' \<Rightarrow>
                  if klass o' = Array \<and> isValidArrayIndex k then
                    (case k of
                       Idx i \<Rightarrow>
                         and_then
                           (call_method env n Splice [Num (int i), Num 1, val] a
                              (upd_obj a (\<lambda>o'. o'\<lparr>elems := elems o' @
                                 replicate (i - length (elems o')) Undefined\<rparr>) s))
                           (\<lambda>tr s'. Some (Returned val, tr0 @ tr, s'))
                     | Name _ \<Rightarrow> None)
                  else if unmodelled_key o' k then None
                  else if has_property o' k \<and> \<not> in_Object_prototype k then
                    and_then (assign env n a k val s)
                      (\<lambda>tr s'. Some (Returned val, tr0 @ tr, s'))
                  else if isVue o' \<or> (case ob o' of Some b \<Rightarrow> vmCount b \<noteq> 0 | None \<Rightarrow> False) then
                    Some (Returned val,
                          tr0 @ (if \<not> production env then [Warn warn_add] else []), s)
                  else
                    (case ob o' of
                       None \<Rightarrow>
                         and_then (assign env n a k val s)
                           (\<lambda>tr s'. Some (Returned val, tr0 @ tr, s'))
                     | Some b \<Rightarrow>
                         (case defineReactive env n a k (Some val) None False s of
                            None \<Rightarrow> None
                          | Some s1 \<Rightarrow>
                              (let (tr, s2) = notify env (odep b) s1
                               in Some (Returned val, tr0 @ tr, s2)))))
         | _ \<Rightarrow> Some (Thrown TypeError, tr0, s))"

text \<open>
  \<^verbatim>\<open>del(target, key)\<close>. \<^verbatim>\<open>target.__ob__\<close> is a TypeError on undefined and null and is
  undefined on another primitive; \<^verbatim>\<open>delete\<close> of a property that is not configurable is a
  TypeError in strict mode, and the indices and the length of a string are not
  configurable.
\<close>

definition del_reactive ::
  "env \<Rightarrow> nat \<Rightarrow> jsval \<Rightarrow> key \<Rightarrow> state \<Rightarrow> (outcome \<times> event list \<times> state) option" where
  "del_reactive env n target k s =
     (let tr0 = (if \<not> production env \<and> (isUndef target \<or> isPrimitive target)
                 then [Warn warn_delete] else [])
      in case target of
           Ref a \<Rightarrow>
             (case obj_at s a of
                None \<Rightarrow> None
              | Some o' \<Rightarrow>
                  if klass o' = Array \<and> isValidArrayIndex k then
                    (case k of
                       Idx i \<Rightarrow>
                         and_then (call_method env n Splice [Num (int i), Num 1] a s)
                           (\<lambda>tr s'. Some (Returned Undefined, tr0 @ tr, s'))
                     | Name _ \<Rightarrow> None)
                  else if unmodelled_key o' k then None
                  else if isVue o' \<or> (case ob o' of Some b \<Rightarrow> vmCount b \<noteq> 0 | None \<Rightarrow> False) then
                    Some (Returned Undefined,
                          tr0 @ (if \<not> production env then [Warn warn_remove] else []), s)
                  else if \<not> hasOwn o' k then Some (Returned Undefined, tr0, s)
                  else if (case map_of (props o') k of Some p \<Rightarrow> \<not> configurable p | None \<Rightarrow> False)
                  then Some (Thrown TypeError, tr0, s)
                  else
                    (let s1 = upd_obj a (\<lambda>o'. o'\<lparr>props := AList.delete k (props o')\<rparr>) s
                     in case ob o' of
                          None \<Rightarrow> Some (Returned Undefined, tr0, s1)
                        | Some b \<Rightarrow>
                            (let (tr, s2) = notify env (odep b) s1
                             in Some (Returned Undefined, tr0 @ tr, s2))))
         | Undefined \<Rightarrow> Some (Thrown TypeError, tr0, s)
         | Null \<Rightarrow> Some (Thrown TypeError, tr0, s)
         | _ \<Rightarrow>
             if \<not> hasOwn_primitive target k then Some (Returned Undefined, tr0, s)
             else Some (Thrown TypeError, tr0, s))"



section \<open>The active-reader context\<close>

text \<open>At load time \<^verbatim>\<open>Dep.target = null\<close> and \<^verbatim>\<open>targetStack = []\<close>.\<close>

definition pushTarget :: "target \<Rightarrow> state \<Rightarrow> state" where
  "pushTarget t s = s\<lparr>targetStack := targetStack s @ [t], dtarget := t\<rparr>"

text \<open>
  \<^verbatim>\<open>targetStack.pop()\<close> on an empty array leaves it empty;
  \<^verbatim>\<open>targetStack[targetStack.length - 1]\<close> of an empty array is \<^verbatim>\<open>undefined\<close>.
\<close>

definition popTarget :: "state \<Rightarrow> state" where
  "popTarget s =
     (let st = butlast (targetStack s)
      in s\<lparr>targetStack := st, dtarget := (if st = [] then TUndefined else last st)\<rparr>)"

text \<open>Whenever the stack is not empty, \<^verbatim>\<open>Dep.target\<close> is its top.\<close>

definition ctx_inv :: "state \<Rightarrow> bool" where
  "ctx_inv s = (targetStack s = [] \<or> dtarget s = last (targetStack s))"


section \<open>Example configurations\<close>

definition env0 :: env where
  "env0 = \<lparr>production = False, async = False, serverRendering = False, hasProto = True,
      watcher_id = int, update = (\<lambda>w s. s), getter_call = (\<lambda>g a s. Undefined),
      setter_call = (\<lambda>f a v s. s), native_sort = (\<lambda>args xs. xs)\<rparr>"

text \<open>The state when the modules have been loaded: \<^verbatim>\<open>uid = 0\<close>, \<^verbatim>\<open>Dep.target = null\<close>.\<close>

definition init_state :: state where
  "init_state = \<lparr>heap = [], deps = [], uid = 0, nextOb = 0, shouldObserve = True,
      dtarget = TNull, targetStack = []\<rparr>"

text \<open>One Dep whose subscribers were added in the order 5, 2, 9.\<close>

definition state_subs :: state where
  "state_subs = init_state\<lparr>deps := [\<lparr>did = 0, subs = [5, 2, 9]\<rparr>], uid := 1\<rparr>"

text \<open>
  Subscribers that change the list they are fired from: 2 subscribes 7 to Dep 0 and
  unsubscribes 9 from it.
\<close>

definition env_reentrant :: env where
  "env_reentrant = env0\<lparr>update := (\<lambda>w s. if w = 2 then removeSub 0 9 (addSub 0 7 s) else s)\<rparr>"

text \<open>
  An observed root object \<^verbatim>\<open>{a: 1, g}\<close>: \<^verbatim>\<open>a\<close> was a data property, \<^verbatim>\<open>g\<close> an accessor
  with getter 0 and no setter, made reactive with a \<^verbatim>\<open>customSetter\<close>. Subscriber 3 reads
  \<^verbatim>\<open>a\<close> and subscriber 4 reads \<^verbatim>\<open>g\<close>.
\<close>

definition slot_a :: slot where
  "slot_a = \<lparr>sdep = 1, sval = Num 1, sgetter = None, ssetter = None, childOb = None,
      customSetter = None, shallow = False\<rparr>"

definition slot_g :: slot where
  "slot_g = \<lparr>sdep = 2, sval = Undefined, sgetter = Some 0, ssetter = None, childOb = None,
      customSetter = Some 7, shallow = False\<rparr>"

definition obj_root :: obj where
  "obj_root = \<lparr>klass = PlainObject, extensible = True, isVue = False,
      ob = Some \<lparr>oid = 0, odep = 0, vmCount = 1\<rparr>, elems = [], augmented = False,
      props = [(Name ''a'', \<lparr>kind = Reactive slot_a, enumerable = True, configurable = True\<rparr>),
               (Name ''g'', \<lparr>kind = Reactive slot_g, enumerable = True, configurable = True\<rparr>)],
      inherited = []\<rparr>"

definition state_root :: state where
  "state_root = init_state\<lparr>heap := [obj_root],
      deps := [\<lparr>did = 0, subs = []\<rparr>, \<lparr>did = 1, subs = [3]\<rparr>, \<lparr>did = 2, subs = [4]\<rparr>],
      uid := 3, nextOb := 1\<rparr>"

text \<open>A plain object \<^verbatim>\<open>{a: 1, list: [..]}\<close> and its array \<^verbatim>\<open>[2, {}]\<close>, not yet observed.\<close>

definition plain_obj :: "(key \<times> property) list \<Rightarrow> obj" where
  "plain_obj ps = \<lparr>klass = PlainObject, extensible = True, isVue = False, ob = None,
      elems = [], augmented = False, props = ps, inherited = []\<rparr>"

definition data_prop :: "jsval \<Rightarrow> property" where
  "data_prop v = \<lparr>kind = Data v, enumerable = True, configurable = True\<rparr>"

definition state_plain :: state where
  "state_plain = init_state\<lparr>heap :=
      [plain_obj [(Name ''a'', data_prop (Num 1)), (Name ''list'', data_prop (Ref 1))],
       new_array [Num 2, Ref 2],
       plain_obj []]\<rparr>"

text \<open>The same objects after \<^verbatim>\<open>observe\<close> of the first: three Observers, five Deps.\<close>

definition reactive_prop :: "nat \<Rightarrow> jsval \<Rightarrow> nat option \<Rightarrow> property" where
  "reactive_prop d v c = \<lparr>kind = Reactive \<lparr>sdep = d, sval = v, sgetter = None, ssetter = None,
      childOb = c, customSetter = None, shallow = False\<rparr>, enumerable = True, configurable = True\<rparr>"

definition state_observed :: state where
  "state_observed = init_state\<lparr>heap :=
      [(plain_obj [(Name ''a'', reactive_prop 1 (Num 1) None),
                   (Name ''list'', reactive_prop 2 (Ref 1) (Some 1))])
         \<lparr>ob := Some \<lparr>oid = 0, odep = 0, vmCount = 0\<rparr>\<rparr>,
       (new_array [Num 2, Ref 2])
         \<lparr>ob := Some \<lparr>oid = 1, odep = 3, vmCount = 0\<rparr>, augmented := True\<rparr>,
       (plain_obj []) \<lparr>ob := Some \<lparr>oid = 2, odep = 4, vmCount = 0\<rparr>\<rparr>],
      deps := [\<lparr>did = 0, subs = []\<rparr>, \<lparr>did = 1, subs = []\<rparr>, \<lparr>did = 2, subs = []\<rparr>,
               \<lparr>did = 3, subs = []\<rparr>, \<lparr>did = 4, subs = []\<rparr>],
      uid := 5, nextOb := 3\<rparr>"



section \<open>Notification order and snapshot\<close>

lemma updates_of_fire: "updates_of (fst (fire env ws s)) = ws"
  by (induction ws arbitrary: s) (simp_all add: Let_def split_beta)

lemma updates_of_notify:
  "updates_of (fst (notify env d s)) =
     (if \<not> production env \<and> \<not> async env
      then sort_key (watcher_id env) (dep_subs s d) else dep_subs s d)"
  by (simp add: notify_def Let_def split_beta updates_of_fire)

lemma sorted_index_order:
  assumes "sorted (map f ws)" "i < length ws" "j < length ws" "f (ws ! i) < f (ws ! j)"
  shows "i < j"
proof (rule ccontr)
  assume "\<not> i < j"
  then have "j \<le> i" by simp
  with assms(1,2) have "map f ws ! j \<le> map f ws ! i"
    by (simp add: sorted_iff_nth_mono)
  with assms show False by simp
qed

text \<open>
  C3. With \<^verbatim>\<open>NODE_ENV\<close> not production and \<^verbatim>\<open>config.async\<close> off, one \<^verbatim>\<open>notify()\<close> calls
  \<^verbatim>\<open>update()\<close> on the snapshot of \<^verbatim>\<open>subs\<close> sorted ascending by \<^verbatim>\<open>id\<close>: a subscriber with
  the smaller id is called strictly before one with the larger id, and every entry of the
  snapshot is called exactly once.
\<close>

theorem notify_sync_ascending:
  assumes "\<not> production env" and "\<not> async env"
  shows "let ws = updates_of (fst (notify env d s)) in
           sorted (map (watcher_id env) ws) \<and>
           mset ws = mset (dep_subs s d) \<and>
           (\<forall>i j. i < length ws \<and> j < length ws \<and>
                  watcher_id env (ws ! i) < watcher_id env (ws ! j) \<longrightarrow> i < j)"
proof -
  let ?ws = "sort_key (watcher_id env) (dep_subs s d)"
  have eq: "updates_of (fst (notify env d s)) = ?ws"
    using assms by (simp add: updates_of_notify)
  have "sorted (map (watcher_id env) ?ws)" by simp
  moreover have "mset ?ws = mset (dep_subs s d)" by simp
  moreover have "\<forall>i j. i < length ?ws \<and> j < length ?ws \<and>
      watcher_id env (?ws ! i) < watcher_id env (?ws ! j) \<longrightarrow> i < j"
    using sorted_index_order [of "watcher_id env" ?ws] by (metis sorted_sort_key)
  ultimately show ?thesis unfolding eq Let_def by blast
qed

theorem notify_sync_ascending_witness:
  "\<not> production env0 \<and> \<not> async env0 \<and>
   updates_of (fst (notify env0 0 state_subs)) = [2, 5, 9]"
proof -
  have "updates_of (fst (notify env0 0 state_subs)) = [2, 5, 9]"
    by (simp add: notify_def env0_def state_subs_def init_state_def dep_subs_def Let_def)
  moreover have "\<not> production env0" "\<not> async env0" by (simp_all add: env0_def)
  ultimately show ?thesis
    using notify_sync_ascending [of env0 0 state_subs] by simp
qed

text \<open>
  C4. The subscribers that one \<^verbatim>\<open>notify()\<close> calls are exactly the entries of \<^verbatim>\<open>subs\<close>
  when the call began, whatever the \<^verbatim>\<open>update()\<close> callbacks do to the list during the pass.
\<close>

theorem notify_calls_snapshot:
  "mset (updates_of (fst (notify env d s))) = mset (dep_subs s d)"
  by (simp add: updates_of_notify)

text \<open>
  The same at a pass where subscriber 2 adds 7 and removes 9: 9 is still called, 7 is not,
  and afterwards the list is 5, 2, 7.
\<close>

lemma notify_reentrant_example:
  "updates_of (fst (notify env_reentrant 0 state_subs)) = [2, 5, 9] \<and>
   dep_subs (snd (notify env_reentrant 0 state_subs)) 0 = [5, 2, 7]"
  by (simp add: notify_def env_reentrant_def env0_def state_subs_def init_state_def
      dep_subs_def set_subs_def addSub_def removeSub_def Let_def)

section \<open>pushTarget and popTarget\<close>

lemma ctx_inv_init: "ctx_inv init_state"
  by (simp add: ctx_inv_def init_state_def)

lemma ctx_inv_pushTarget: "ctx_inv (pushTarget t s)"
  by (simp add: ctx_inv_def pushTarget_def)

lemma ctx_inv_popTarget: "ctx_inv (popTarget s)"
  by (simp add: ctx_inv_def popTarget_def Let_def)

text \<open>
  C9, as the code has it. \<^verbatim>\<open>pushTarget(t)\<close> makes \<^verbatim>\<open>Dep.target\<close> equal \<open>t\<close>. The matching
  \<^verbatim>\<open>popTarget()\<close> restores the stack, and sets \<^verbatim>\<open>Dep.target\<close> to the value it held before
  the push when the stack was not empty, and to \<^verbatim>\<open>undefined\<close> when it was empty.
\<close>

theorem push_pop_target:
  assumes "ctx_inv s"
  shows "dtarget (pushTarget t s) = t \<and>
         targetStack (popTarget (pushTarget t s)) = targetStack s \<and>
         dtarget (popTarget (pushTarget t s)) =
           (if targetStack s = [] then TUndefined else dtarget s)"
  using assms by (auto simp: ctx_inv_def pushTarget_def popTarget_def Let_def)

theorem push_pop_target_witness:
  "ctx_inv (pushTarget (TWatcher 1) init_state) \<and>
   dtarget (popTarget (pushTarget TUndefined (pushTarget (TWatcher 1) init_state))) = TWatcher 1"
proof -
  have inv: "ctx_inv (pushTarget (TWatcher 1) init_state)"
    by (rule ctx_inv_pushTarget)
  have ne: "targetStack (pushTarget (TWatcher 1) init_state) \<noteq> []"
    and tg: "dtarget (pushTarget (TWatcher 1) init_state) = TWatcher 1"
    by (simp_all add: pushTarget_def)
  from push_pop_target [OF inv, of TUndefined] ne tg inv show ?thesis
    by simp
qed

text \<open>
  C9 as stated fails at load time: \<^verbatim>\<open>Dep.target\<close> is \<^verbatim>\<open>null\<close> before the first push and
  \<^verbatim>\<open>undefined\<close> after the matching pop.
\<close>

theorem push_pop_target_counterexample:
  "dtarget (popTarget (pushTarget (TWatcher 1) init_state)) \<noteq> dtarget init_state"
  by (simp add: pushTarget_def popTarget_def init_state_def)

section \<open>Writes through the reactive setter\<close>

text \<open>The value a write is compared with: the pre-existing getter's, or the captured one.\<close>

lemma slot_at_root_a: "slot_at state_root 0 (Name ''a'') = Some slot_a"
  by (simp add: slot_at_def obj_at_def state_root_def init_state_def obj_root_def)

lemma slot_at_root_g: "slot_at state_root 0 (Name ''g'') = Some slot_g"
  by (simp add: slot_at_def obj_at_def state_root_def init_state_def obj_root_def)

text \<open>
  C2. A write of a value strictly equal to the current one, or of not-a-number over
  not-a-number, returns at once: no event at all (no \<^verbatim>\<open>notify\<close>, no \<^verbatim>\<open>update\<close>) and
  the state is the same, so the value, the cached \<^verbatim>\<open>childOb\<close> and every object are
  untouched and \<^verbatim>\<open>observe\<close> has not run.
\<close>

theorem reactiveSetter_same_value:
  assumes "slot_at s a k = Some sl"
    and "value = (case sgetter sl of Some g \<Rightarrow> getter_call env g a s | None \<Rightarrow> sval sl)"
    and "strict_eq newVal value \<or> (newVal = NaN \<and> value = NaN)"
  shows "reactiveSetter env n a k newVal s = Some ([], s)"
  using assms by (auto simp: reactiveSetter_def strict_eq_def Let_def)

theorem reactiveSetter_same_value_witness:
  "slot_at state_root 0 (Name ''a'') = Some slot_a \<and>
   strict_eq (Num 1) (sval slot_a) \<and>
   reactiveSetter env0 0 0 (Name ''a'') (Num 1) state_root = Some ([], state_root)"
proof -
  have v: "Num 1 = (case sgetter slot_a of Some g \<Rightarrow> getter_call env0 g 0 state_root
                    | None \<Rightarrow> sval slot_a)"
    by (simp add: slot_a_def)
  have e: "strict_eq (Num 1) (Num 1) \<or> (Num 1 = NaN \<and> Num 1 = NaN)"
    by (simp add: strict_eq_def)
  from reactiveSetter_same_value [OF slot_at_root_a v e] slot_at_root_a e show ?thesis
    by (simp add: slot_a_def)
qed

text \<open>
  C8. On a reactive accessor over a getter without a setter, a write of a different value
  is dropped: the call returns with the state unchanged, so nothing is stored and
  \<^verbatim>\<open>childOb\<close> is not recomputed, and its only event is the call of the \<^verbatim>\<open>customSetter\<close>,
  when there is one and the build is not a production build: no \<^verbatim>\<open>notify\<close> and no
  \<^verbatim>\<open>update\<close>.
\<close>

theorem reactiveSetter_getter_only:
  assumes "slot_at s a k = Some sl"
    and "sgetter sl = Some g" and "ssetter sl = None"
    and "\<not> (strict_eq newVal (getter_call env g a s) \<or>
            (newVal = NaN \<and> getter_call env g a s = NaN))"
  shows "\<exists>tr. reactiveSetter env n a k newVal s = Some (tr, s) \<and>
           tr = (case customSetter sl of
                   Some c \<Rightarrow> if \<not> production env then [CustomSetter c] else []
                 | None \<Rightarrow> []) \<and>
           updates_of tr = [] \<and> (\<forall>d. Notify d \<notin> set tr)"
  using assms by (auto simp: reactiveSetter_def strict_eq_def Let_def split: option.splits)

theorem reactiveSetter_getter_only_witness:
  "slot_at state_root 0 (Name ''g'') = Some slot_g \<and>
   sgetter slot_g = Some 0 \<and> ssetter slot_g = None \<and>
   reactiveSetter env0 0 0 (Name ''g'') (Num 5) state_root = Some ([CustomSetter 7], state_root)"
proof -
  have g: "sgetter slot_g = Some 0" and f: "ssetter slot_g = None"
    by (simp_all add: slot_g_def)
  have ne: "\<not> (strict_eq (Num 5) (getter_call env0 0 0 state_root) \<or>
            (Num 5 = NaN \<and> getter_call env0 0 0 state_root = NaN))"
    by (simp add: strict_eq_def env0_def)
  from reactiveSetter_getter_only [OF slot_at_root_g g f ne, of 0] slot_at_root_g g f
  show ?thesis by (auto simp: slot_g_def env0_def)
qed

section \<open>set and del on a target that is not an object\<close>

text \<open>
  C7, as the code has it. On a target that is undefined, null or a primitive, \<^verbatim>\<open>set\<close> and
  \<^verbatim>\<open>del\<close> report their diagnostic outside production and change nothing; then \<^verbatim>\<open>set\<close>
  throws a TypeError at \<^verbatim>\<open>key in target\<close>, and \<^verbatim>\<open>del\<close> throws a TypeError on undefined
  and null (at \<^verbatim>\<open>target.__ob__\<close>) and on an own index or the length of a string (at
  \<^verbatim>\<open>delete\<close>), and returns undefined on every other primitive.
\<close>

theorem set_del_on_non_object:
  assumes "isUndef target \<or> isPrimitive target"
  shows "set_reactive env n target k v s =
           Some (Thrown TypeError, if production env then [] else [Warn warn_set], s) \<and>
         del_reactive env n target k s =
           Some (if isUndef target \<or> hasOwn_primitive target k
                 then Thrown TypeError else Returned Undefined,
                 if production env then [] else [Warn warn_delete], s)"
  using assms
  by (cases target) (auto simp: set_reactive_def del_reactive_def isUndef_def Let_def)

theorem set_del_on_non_object_witness:
  "isPrimitive (Num 5) \<and>
   set_reactive env0 0 (Num 5) (Name ''x'') (Num 1) init_state =
     Some (Thrown TypeError, [Warn warn_set], init_state) \<and>
   del_reactive env0 0 (Num 5) (Name ''x'') init_state =
     Some (Returned Undefined, [Warn warn_delete], init_state)"
proof -
  have p: "isUndef (Num 5) \<or> isPrimitive (Num 5)" by simp
  from set_del_on_non_object [OF p, of env0 0 "Name ''x''" "Num 1" init_state] show ?thesis
    by (simp add: env0_def isUndef_def)
qed

text \<open>C7 as stated fails: \<^verbatim>\<open>set(null, "x", 1)\<close> warns and then throws.\<close>

theorem set_on_null_counterexample:
  "set_reactive env0 0 Null (Name ''x'') (Num 1) init_state =
     Some (Thrown TypeError, [Warn warn_set], init_state)"
  by (simp add: set_reactive_def env0_def isUndef_def Let_def)

section \<open>Observation keeps the Observers that exist\<close>

lemma heap_newDep: "heap (snd (newDep s)) = heap s"
  by (simp add: newDep_def)

lemma frame_ex_refl: "frame_ex A s s"
  by (simp add: frame_ex_def)

lemma frame_ex_heap_eq: "heap s' = heap s \<Longrightarrow> frame_ex A s s'"
  by (simp add: frame_ex_def)

lemma marked_frame_ex: "frame_ex A s s' \<Longrightarrow> marked s b \<Longrightarrow> marked s' b"
  by (simp add: frame_ex_def marked_def)

lemma frame_ex_trans:
  assumes "frame_ex A s t" and "frame_ex A t u"
  shows "frame_ex A s u"
proof -
  have len: "length (heap u) = length (heap s)"
    using assms by (simp add: frame_ex_def)
  have "ob (heap u ! b) = ob (heap s ! b) \<and> klass (heap u ! b) = klass (heap s ! b) \<and>
        (b \<notin> A \<longrightarrow> heap u ! b = heap s ! b)" if m: "marked s b" for b
  proof -
    have mt: "marked t b" using assms(1) m by (rule marked_frame_ex)
    from assms(1) m have 1: "ob (heap t ! b) = ob (heap s ! b)"
      "klass (heap t ! b) = klass (heap s ! b)" "b \<notin> A \<longrightarrow> heap t ! b = heap s ! b"
      by (simp_all add: frame_ex_def)
    from assms(2) mt have 2: "ob (heap u ! b) = ob (heap t ! b)"
      "klass (heap u ! b) = klass (heap t ! b)" "b \<notin> A \<longrightarrow> heap u ! b = heap t ! b"
      by (simp_all add: frame_ex_def)
    from 1 2 show ?thesis by simp
  qed
  with len show ?thesis by (simp add: frame_ex_def)
qed

lemma frame_ex_mono: "frame_ex A s s' \<Longrightarrow> A \<subseteq> B \<Longrightarrow> frame_ex B s s'"
  by (auto simp: frame_ex_def)

lemma frame_ex_unmarked:
  "frame_ex (insert a A) s s' \<Longrightarrow> \<not> marked s a \<Longrightarrow> frame_ex A s s'"
  by (auto simp: frame_ex_def)

lemma frame_ex_upd_obj:
  assumes "\<And>o'. ob (f o') = ob o'" and "\<And>o'. klass (f o') = klass o'"
  shows "frame_ex {a} s (upd_obj a f s)"
  using assms by (auto simp: frame_ex_def upd_obj_def nth_list_update)

lemma frame_ex_def_ob: "\<not> marked s a \<Longrightarrow> frame_ex {} s (def_ob a b s)"
  by (auto simp: frame_ex_def def_ob_def upd_obj_def marked_def nth_list_update)

lemma frame_ex_augment: "frame_ex {a} s (augment env a s)"
  unfolding augment_def by (rule frame_ex_upd_obj) simp_all

lemma frame_ex_define_accessor: "frame_ex {a} s (define_accessor a k sl s)"
  unfolding define_accessor_def by (rule frame_ex_upd_obj) simp_all

lemma defineReactive_by_cases:
  assumes "defineReactive_by obs env a k val c sh s = Some s'"
  obtains "s' = snd (newDep s)"
  | v x s2 sl where "\<not> sh" "obs v False (snd (newDep s)) = Some (x, s2)"
      "s' = define_accessor a k sl s2"
  | sl where "sh" "s' = define_accessor a k sl (snd (newDep s))"
  using assms
  by (auto simp: defineReactive_by_def Let_def split_beta
      split: option.splits if_splits)

lemma defineReactive_by_frame:
  assumes "obs_frame obs" and "defineReactive_by obs env a k val c sh s = Some s'"
  shows "frame_ex {a} s s'"
  using assms(2)
proof (cases rule: defineReactive_by_cases)
  case 1
  then show ?thesis by (simp add: frame_ex_heap_eq heap_newDep)
next
  case (2 v x s2 sl)
  have "frame_ex {a} s (snd (newDep s))" by (simp add: frame_ex_heap_eq heap_newDep)
  moreover have "frame_ex {a} (snd (newDep s)) s2"
  proof -
    from assms(1) 2(2) have "frame_ex {} (snd (newDep s)) s2"
      unfolding obs_frame_def by blast
    then show ?thesis by (rule frame_ex_mono) simp
  qed
  moreover have "frame_ex {a} s2 s'" using 2(3) by (simp add: frame_ex_define_accessor)
  ultimately show ?thesis by (blast intro: frame_ex_trans)
next
  case (3 sl)
  have "frame_ex {a} s (snd (newDep s))" by (simp add: frame_ex_heap_eq heap_newDep)
  moreover have "frame_ex {a} (snd (newDep s)) s'" using 3(2) by (simp add: frame_ex_define_accessor)
  ultimately show ?thesis by (blast intro: frame_ex_trans)
qed

lemma walk_by_frame:
  assumes "obs_frame obs"
  shows "walk_by obs env a ks s = Some s' \<Longrightarrow> frame_ex {a} s s'"
proof (induction ks arbitrary: s)
  case Nil
  then show ?case by (simp add: frame_ex_refl)
next
  case (Cons k ks)
  from Cons.prems obtain t where t: "defineReactive_by obs env a k None None False s = Some t"
    and r: "walk_by obs env a ks t = Some s'"
    by (auto split: option.splits)
  from defineReactive_by_frame [OF assms t] Cons.IH [OF r] show ?case
    by (rule frame_ex_trans)
qed

lemma observeArray_by_frame:
  assumes "obs_frame obs"
  shows "observeArray_by obs vs s = Some s' \<Longrightarrow> frame_ex {} s s'"
proof (induction vs arbitrary: s)
  case Nil
  then show ?case by (simp add: frame_ex_refl)
next
  case (Cons v vs)
  from Cons.prems obtain x t where t: "obs v False s = Some (x, t)"
    and r: "observeArray_by obs vs t = Some s'"
    by (auto split: option.splits)
  from assms t have "frame_ex {} s t" by (auto simp: obs_frame_def)
  then show ?case using Cons.IH [OF r] by (rule frame_ex_trans)
qed

text \<open>The state in which the constructor has set the marker.\<close>

lemma newObserver_by_eq:
  "newObserver_by obs env a s =
     (case obj_at (marked_state a s) a of
        None \<Rightarrow> None
      | Some o' \<Rightarrow>
          (case (if klass o' = Array
                 then observeArray_by obs (elems o') (augment env a (marked_state a s))
                 else walk_by obs env a (keys_of o') (marked_state a s)) of
             None \<Rightarrow> None
           | Some s' \<Rightarrow> Some (nextOb s, s')))"
  by (simp add: newObserver_by_def marked_state_def newDep_def Let_def
      cong: option.case_cong if_cong)

lemma newObserver_by_cases:
  assumes "newObserver_by obs env a s = Some (i, s')"
  obtains o' where "i = nextOb s" "obj_at (marked_state a s) a = Some o'"
    "klass o' = Array" "observeArray_by obs (elems o') (augment env a (marked_state a s)) = Some s'"
  | o' where "i = nextOb s" "obj_at (marked_state a s) a = Some o'"
    "klass o' \<noteq> Array" "walk_by obs env a (keys_of o') (marked_state a s) = Some s'"
proof (cases "obj_at (marked_state a s) a")
  case None
  with assms show ?thesis by (simp add: newObserver_by_eq)
next
  case (Some o')
  show ?thesis
  proof (cases "klass o' = Array")
    case True
    with assms Some that(1) [of o'] show ?thesis
      by (simp add: newObserver_by_eq split: option.splits)
  next
    case False
    with assms Some that(2) [of o'] show ?thesis
      by (simp add: newObserver_by_eq split: option.splits)
  qed
qed


lemma observe_state_plain:
  "observe env0 3 (Ref 0) False state_plain = Some (Some 0, state_observed)"
  by code_simp

lemma marked_state_heap:
  "heap (marked_state a s) =
     (if a < length (heap s)
      then (heap s)[a := (heap s ! a)\<lparr>ob := Some \<lparr>oid = nextOb s, odep = length (deps s), vmCount = 0\<rparr>\<rparr>]
      else heap s)"
  by (simp add: marked_state_def def_ob_def upd_obj_def newDep_def)

lemma frame_ex_marked_state: "\<not> marked s a \<Longrightarrow> frame_ex {} s (marked_state a s)"
  by (auto simp: frame_ex_def marked_state_heap marked_def nth_list_update)

lemma obj_at_marked_state:
  assumes "obj_at (marked_state a s) a = Some o'"
  shows "a < length (heap s) \<and> marked (marked_state a s) a \<and>
         ob o' = Some \<lparr>oid = nextOb s, odep = length (deps s), vmCount = 0\<rparr> \<and>
         klass o' = klass (heap s ! a)"
  using assms by (auto simp: obj_at_def marked_state_heap marked_def split: if_splits)

lemma newObserver_by_frame:
  assumes "obs_frame obs" and "\<not> marked s a" and "newObserver_by obs env a s = Some (i, s')"
  shows "frame_ex {} s s' \<and> a < length (heap s) \<and>
         ob (heap s' ! a) = Some \<lparr>oid = i, odep = length (deps s), vmCount = 0\<rparr> \<and>
         klass (heap s' ! a) = klass (heap s ! a)"
proof -
  let ?s2 = "marked_state a s"
  have "\<exists>o'. i = nextOb s \<and> obj_at ?s2 a = Some o' \<and> frame_ex {a} ?s2 s'"
    using assms(3)
  proof (cases rule: newObserver_by_cases)
    case (1 o')
    have "frame_ex {a} ?s2 (augment env a ?s2)" by (rule frame_ex_augment)
    moreover have "frame_ex {a} (augment env a ?s2) s'"
      using observeArray_by_frame [OF assms(1) 1(4)] by (rule frame_ex_mono) simp
    ultimately have "frame_ex {a} ?s2 s'" by (rule frame_ex_trans)
    with 1 show ?thesis by blast
  next
    case (2 o')
    from walk_by_frame [OF assms(1) 2(4)] 2 show ?thesis by blast
  qed
  then obtain o' where i: "i = nextOb s" and o': "obj_at ?s2 a = Some o'"
    and fr: "frame_ex {a} ?s2 s'" by blast
  note m = obj_at_marked_state [OF o']
  have o'eq: "heap ?s2 ! a = o'" using o' by (simp add: obj_at_def split: if_splits)
  from fr m have keep: "ob (heap s' ! a) = ob (heap ?s2 ! a)"
    "klass (heap s' ! a) = klass (heap ?s2 ! a)"
    by (simp_all add: frame_ex_def)
  have "frame_ex {a} s ?s2"
    using frame_ex_marked_state [OF assms(2)] by (rule frame_ex_mono) simp
  then have "frame_ex {a} s s'" using fr by (rule frame_ex_trans)
  then have "frame_ex {} s s'" using assms(2) by (simp add: frame_ex_unmarked)
  with keep m i o'eq show ?thesis by simp
qed

lemma frame_ex_incr_vmCount_heap:
  "length (heap (incr_vmCount a s)) = length (heap s) \<and>
   (\<forall>b. b \<noteq> a \<longrightarrow> heap (incr_vmCount a s) ! b = heap s ! b)"
  by (simp add: incr_vmCount_def upd_obj_def)

lemma observe_Suc_cases:
  assumes "observe env (Suc n) v r s = Some (x, s')"
  obtains "x = None" "s' = s"
  | a o' b where "v = Ref a" "obj_at s a = Some o'" "klass o' \<noteq> VNode" "ob o' = Some b"
      "x = Some (oid b)" "s' = (if r then incr_vmCount a s else s)"
  | a o' i t where "v = Ref a" "obj_at s a = Some o'" "klass o' \<noteq> VNode" "ob o' = None"
      "eligible env s o'" "newObserver_by (observe env n) env a s = Some (i, t)"
      "x = Some i" "s' = (if r then incr_vmCount a t else t)"
proof (cases v)
  case (Ref a)
  show ?thesis
  proof (cases "obj_at s a")
    case None
    with Ref assms that(1) show ?thesis by simp
  next
    case (Some o')
    show ?thesis
    proof (cases "klass o' = VNode")
      case True
      with Ref Some assms that(1) show ?thesis by simp
    next
      case False
      show ?thesis
      proof (cases "ob o'")
        case (Some b)
        with Ref \<open>obj_at s a = Some o'\<close> False assms that(2) [of a o' b] show ?thesis
          by (simp split: if_splits)
      next
        case None
        show ?thesis
        proof (cases "eligible env s o'")
          case True
          show ?thesis
          proof (cases "newObserver_by (observe env n) env a s")
            case None
            with Ref \<open>obj_at s a = Some o'\<close> \<open>klass o' \<noteq> VNode\<close> \<open>ob o' = None\<close> True assms
            show ?thesis by simp
          next
            case (Some it)
            obtain i t where it: "it = (i, t)" by (cases it)
            from Ref \<open>obj_at s a = Some o'\<close> \<open>klass o' \<noteq> VNode\<close> \<open>ob o' = None\<close> True assms
              Some it
            have "x = Some i" "s' = (if r then incr_vmCount a t else t)" by simp_all
            with that(3) [of a o' i t] Ref \<open>obj_at s a = Some o'\<close> \<open>klass o' \<noteq> VNode\<close>
              \<open>ob o' = None\<close> True Some it
            show ?thesis by simp
          qed
        next
          case False
          with Ref \<open>obj_at s a = Some o'\<close> \<open>klass o' \<noteq> VNode\<close> None assms that(1) show ?thesis
            by simp
        qed
      qed
    qed
  qed
qed (use assms that(1) in simp_all)

lemma observe_obs_frame: "obs_frame (observe env n)"
proof (induction n)
  case 0
  show ?case by (simp add: obs_frame_def)
next
  case (Suc n)
  show ?case
    unfolding obs_frame_def
  proof (intro allI impI)
    fix v s x s'
    assume a: "observe env (Suc n) v False s = Some (x, s')"
    then show "frame_ex {} s s'"
    proof (cases rule: observe_Suc_cases)
      case 1
      then show ?thesis by (simp add: frame_ex_refl)
    next
      case (2 a o' b)
      then show ?thesis by (simp add: frame_ex_refl)
    next
      case (3 a o' i t)
      from 3(2,4) have "\<not> marked s a" by (simp add: marked_def obj_at_def split: if_splits)
      from newObserver_by_frame [OF Suc this 3(6)] 3(8) show ?thesis by simp
    qed
  qed
qed

lemma ob_id_incr_vmCount: "ob_id (incr_vmCount b s) a = ob_id s a"
  by (auto simp: ob_id_def obj_at_def incr_vmCount_def upd_obj_def nth_list_update
      option.map_comp comp_def split: option.splits)

lemma ob_id_marked: "ob_id s a = Some i \<Longrightarrow> marked s a"
  by (auto simp: ob_id_def obj_at_def marked_def split: if_splits)

lemma ob_id_frame_ex:
  assumes "frame_ex A s t" and "ob_id s a = Some i"
  shows "ob_id t a = Some i"
proof -
  from assms(2) have m: "marked s a" by (rule ob_id_marked)
  with assms(1) have "ob (heap t ! a) = ob (heap s ! a)" "klass (heap t ! a) = klass (heap s ! a)"
    "length (heap t) = length (heap s)"
    by (simp_all add: frame_ex_def)
  with assms(2) m show ?thesis
    by (auto simp: ob_id_def obj_at_def marked_def split: if_splits)
qed

lemma observe_keeps_ob_id:
  assumes "observe env n v r s = Some (x, s')" and "ob_id s a = Some i"
  shows "ob_id s' a = Some i"
proof (cases n)
  case 0
  with assms show ?thesis by simp
next
  case (Suc n')
  from assms(1) [unfolded Suc] show ?thesis
  proof (cases rule: observe_Suc_cases)
    case 1
    with assms(2) show ?thesis by simp
  next
    case (2 a' o' b)
    with assms(2) show ?thesis by (simp add: ob_id_incr_vmCount)
  next
    case (3 a' o' j t)
    from 3(2,4) have "\<not> marked s a'" by (simp add: marked_def obj_at_def split: if_splits)
    from newObserver_by_frame [OF observe_obs_frame this 3(6)] have "frame_ex {} s t" by simp
    from ob_id_frame_ex [OF this assms(2)] 3(8) show ?thesis
      by (simp add: ob_id_incr_vmCount)
  qed
qed

lemma observe_attaches:
  assumes "observe env n (Ref a) r s = Some (Some i, s1)"
  shows "ob_id s1 a = Some i"
proof (cases n)
  case 0
  with assms show ?thesis by simp
next
  case (Suc n')
  from assms [unfolded Suc] show ?thesis
  proof (cases rule: observe_Suc_cases)
    case 1
    then show ?thesis by simp
  next
    case (2 a' o' b)
    then have "ob_id s a = Some i" by (simp add: ob_id_def)
    with 2 show ?thesis by (simp add: ob_id_incr_vmCount)
  next
    case (3 a' o' j t)
    from 3(2,4) have nm: "\<not> marked s a'" by (simp add: marked_def obj_at_def split: if_splits)
    from newObserver_by_frame [OF observe_obs_frame nm 3(6)] 3(1,2,3,7)
    have "ob_id t a = Some i"
      by (simp add: ob_id_def obj_at_def frame_ex_def)
    with 3 show ?thesis by (simp add: ob_id_incr_vmCount)
  qed
qed

lemma observe_marked:
  assumes "ob_id s a = Some i"
  shows "observe env (Suc m) (Ref a) r s = Some (Some i, if r then incr_vmCount a s else s)"
  using assms by (auto simp: ob_id_def split: option.splits if_splits)

section \<open>Idempotent observation\<close>

text \<open>
  C1. Once \<^verbatim>\<open>observe(x)\<close> has returned an Observer for the object \<open>x\<close>, every later
  \<^verbatim>\<open>observe(x)\<close> returns that same Observer and creates none: at once, and after any other
  call of \<^verbatim>\<open>observe\<close> in between. The later call returns at any depth bound; with
  \<^verbatim>\<open>asRootData\<close> its only effect is \<^verbatim>\<open>vmCount++\<close> on that Observer.
\<close>

theorem observe_idempotent:
  assumes "observe env n (Ref a) r s = Some (Some i, s1)"
    and "observe env k v r' s1 = Some (x, s2)"
  shows "observe env (Suc m) (Ref a) r'' s1 = Some (Some i, if r'' then incr_vmCount a s1 else s1) \<and>
         observe env (Suc m) (Ref a) r'' s2 = Some (Some i, if r'' then incr_vmCount a s2 else s2)"
proof -
  from assms(1) have 1: "ob_id s1 a = Some i" by (rule observe_attaches)
  from assms(2) 1 have 2: "ob_id s2 a = Some i" by (rule observe_keeps_ob_id)
  from 1 2 show ?thesis by (simp only: observe_marked simp_thms)
qed

theorem observe_idempotent_witness:
  "observe env0 3 (Ref 0) False state_plain = Some (Some 0, state_observed) \<and>
   observe env0 1 (Ref 1) False state_observed = Some (Some 1, state_observed) \<and>
   observe env0 1 (Ref 0) False state_observed = Some (Some 0, state_observed)"
proof -
  have 1: "observe env0 3 (Ref 0) False state_plain = Some (Some 0, state_observed)"
    by (rule observe_state_plain)
  have 2: "observe env0 1 (Ref 1) False state_observed = Some (Some 1, state_observed)"
    by code_simp
  from observe_idempotent [OF 1 2, of 0 False] 1 2 show ?thesis by simp
qed

section \<open>Observation returns\<close>































section \<open>Observation changes an object only by observing it\<close>



























section \<open>The intercepted array methods\<close>








section \<open>set on an array index\<close>


lemma grown_elems:
  "length (xs @ replicate (i - length xs) Undefined) = max (length xs) i"
  by simp



section \<open>set on a key that is present\<close>












lemma set_root_example:
  "map_option (\<lambda>(out, tr, s'). (out, tr))
     (set_reactive env0 1 (Ref 0) (Name ''a'') (Num 2) state_root) =
   Some (Returned (Num 2), [Notify 1, Update 3])"
  by code_simp



end
